theory Spec2Isabelle
  imports Main "HOL-Library.Multiset" "HOL-Library.Sublist"
begin

section \<open>Data model (app/models/social.py, app/schemas/social.py)\<close>

text \<open>
  The tables of the social service are lists of rows, in the order in which the storage
  engine scans them (rows are appended on insert). Identifiers and timestamps are Python
  integers and datetimes; both are modelled as \<open>int\<close>. The value of \<open>func.now()\<close> is
  supplied by the engine and is a parameter \<open>now\<close> of every operation that writes.
\<close>

datatype ConnectionStatus = PENDING | ACCEPTED | DECLINED

record Connection =
  c_id :: int
  requester_id :: int
  addressee_id :: int
  status :: ConnectionStatus
  message :: "string option"
  c_created_at :: int
  c_updated_at :: int

record Post =
  p_id :: int
  p_user_id :: int
  p_content :: string
  p_image_url :: "string option"
  p_created_at :: int
  p_updated_at :: int

record Comment =
  cm_id :: int
  cm_post_id :: int
  cm_user_id :: int
  cm_content :: string
  cm_created_at :: int
  cm_updated_at :: int

record Like =
  lk_id :: int
  lk_post_id :: int
  lk_user_id :: int
  lk_created_at :: int

record ConnectionCreate =
  cc_addressee_id :: int
  cc_message :: "string option"

record PostCreate =
  pc_content :: string

record CommentCreate =
  cmc_content :: string

record Database =
  connections :: "Connection list"
  posts :: "Post list"
  comments :: "Comment list"
  likes :: "Like list"

definition empty_db :: Database where
  "empty_db = \<lparr>connections = [], posts = [], comments = [], likes = []\<rparr>"

section \<open>The storage session\<close>

text \<open>
  The primary key given to a new row: larger than every key of the table, and 1 for an
  empty table.
\<close>

definition next_id :: "int list \<Rightarrow> int" where
  "next_id ids = foldr max ids 0 + 1"

text \<open>
  \<open>Result.scalar_one_or_none()\<close>: no row gives \<open>None\<close>, one row gives the row, more
  than one row raises \<open>MultipleResultsFound\<close>.
\<close>

datatype exn = MultipleResultsFound

fun scalar_one_or_none :: "'a list \<Rightarrow> exn + 'a option" where
  "scalar_one_or_none [] = Inr None"
| "scalar_one_or_none [x] = Inr (Some x)"
| "scalar_one_or_none (x # y # zs) = Inl MultipleResultsFound"

text \<open>\<open>Session.get(Connection, connection_id)\<close>: the row with that primary key.\<close>

definition db_get_connection :: "Database \<Rightarrow> int \<Rightarrow> Connection option" where
  "db_get_connection db cid = find (\<lambda>c. c_id c = cid) (connections db)"

text \<open>
  \<open>order_by(desc(Post.created_at))\<close>: the query names one sort key and nothing else.
  The rows are sorted on that key, largest first; rows with equal keys stay in the order
  of the scan (the sort is stable), since the statement gives the engine no second key.
\<close>

definition order_by_desc_created_at :: "Post list \<Rightarrow> Post list" where
  "order_by_desc_created_at ps = sort_key (\<lambda>p. - p_created_at p) ps"

text \<open>\<open>.offset(skip).limit(limit)\<close>, for the non-negative values the callers pass.\<close>

definition offset_limit :: "nat \<Rightarrow> nat \<Rightarrow> 'a list \<Rightarrow> 'a list" where
  "offset_limit skip limit xs = take limit (drop skip xs)"

section \<open>SocialService (app/services/social_service.py)\<close>

text \<open>
  Every method that writes returns \<open>Optional[...]\<close>. The model keeps apart the
  \<open>return None\<close> statements of the source, one constructor each, and \<open>py_value\<close>
  gives the value the Python caller receives:
  \<^item> \<open>Connection_exists\<close>: \<open>send_connection_request\<close>, after the warning
    "Connection already exists between ...";
  \<^item> \<open>Invalid_response\<close>: \<open>respond_to_connection\<close>, after the warning
    "Invalid connection response attempt ...";
  \<^item> \<open>Unliked\<close>: \<open>like_post\<close>, after deleting the existing like;
  \<^item> \<open>Exception_caught\<close>: the \<open>except Exception\<close> handlers, after the rollback.
  The exceptions of the model are those that depend on the arguments and the stored
  data: \<open>MultipleResultsFound\<close> of a lookup, and the refusal of the insert in
  \<open>comment_on_post\<close>; otherwise the engine carries out the statement it is given.
\<close>

datatype none_return = Connection_exists | Invalid_response | Unliked | Exception_caught

type_synonym 'a returned = "none_return + 'a"

fun py_value :: "'a returned \<Rightarrow> 'a option" where
  "py_value (Inl _) = None"
| "py_value (Inr x) = Some x"

subsection \<open>Connection methods\<close>

definition pair_rows :: "Database \<Rightarrow> int \<Rightarrow> int \<Rightarrow> Connection list" where
  "pair_rows db requester addressee =
     filter (\<lambda>c. (requester_id c = requester \<and> addressee_id c = addressee)
                \<or> (requester_id c = addressee \<and> addressee_id c = requester))
            (connections db)"

definition send_connection_request ::
  "Database \<Rightarrow> int \<Rightarrow> int \<Rightarrow> ConnectionCreate \<Rightarrow> Connection returned \<times> Database" where
  "send_connection_request db now requester connection_create =
     (case scalar_one_or_none (pair_rows db requester (cc_addressee_id connection_create)) of
        Inl e \<Rightarrow> (Inl Exception_caught, db)
      | Inr (Some existing_connection) \<Rightarrow> (Inl Connection_exists, db)
      | Inr None \<Rightarrow>
          (let connection =
                 \<lparr>c_id = next_id (map c_id (connections db)),
                  requester_id = requester,
                  addressee_id = cc_addressee_id connection_create,
                  status = PENDING,
                  message = cc_message connection_create,
                  c_created_at = now,
                  c_updated_at = now\<rparr>
           in (Inr connection, db\<lparr>connections := connections db @ [connection]\<rparr>)))"

text \<open>
  Assigning the status the row already has leaves the unit of work with nothing to
  flush; otherwise the commit updates \<open>status\<close> and, through \<open>onupdate\<close>,
  \<open>updated_at\<close> of the row with that primary key. The returned object is the
  refreshed row.
\<close>

definition respond_to_connection ::
  "Database \<Rightarrow> int \<Rightarrow> int \<Rightarrow> int \<Rightarrow> bool \<Rightarrow> Connection returned \<times> Database" where
  "respond_to_connection db now connection_id user_id accept =
     (case db_get_connection db connection_id of
        None \<Rightarrow> (Inl Invalid_response, db)
      | Some connection \<Rightarrow>
          if addressee_id connection \<noteq> user_id then (Inl Invalid_response, db)
          else
            (let new_status = (if accept then ACCEPTED else DECLINED)
             in if status connection = new_status then (Inr connection, db)
                else
                  (Inr (connection\<lparr>status := new_status, c_updated_at := now\<rparr>),
                   db\<lparr>connections :=
                        map (\<lambda>c. if c_id c = connection_id
                                 then c\<lparr>status := new_status, c_updated_at := now\<rparr>
                                 else c)
                            (connections db)\<rparr>)))"

definition get_user_connections :: "Database \<Rightarrow> int \<Rightarrow> Connection list" where
  "get_user_connections db user_id =
     filter (\<lambda>c. (requester_id c = user_id \<or> addressee_id c = user_id)
                \<and> status c = ACCEPTED)
            (connections db)"

definition get_pending_requests :: "Database \<Rightarrow> int \<Rightarrow> Connection list" where
  "get_pending_requests db user_id =
     filter (\<lambda>c. addressee_id c = user_id \<and> status c = PENDING) (connections db)"

subsection \<open>Post methods\<close>

definition create_post ::
  "Database \<Rightarrow> int \<Rightarrow> int \<Rightarrow> PostCreate \<Rightarrow> Post returned \<times> Database" where
  "create_post db now user_id post_create =
     (let post = \<lparr>p_id = next_id (map p_id (posts db)),
                  p_user_id = user_id,
                  p_content = pc_content post_create,
                  p_image_url = None,
                  p_created_at = now,
                  p_updated_at = now\<rparr>
      in (Inr post, db\<lparr>posts := posts db @ [post]\<rparr>))"

definition get_user_posts :: "Database \<Rightarrow> int \<Rightarrow> nat \<Rightarrow> nat \<Rightarrow> Post list" where
  "get_user_posts db user_id skip limit =
     offset_limit skip limit
       (order_by_desc_created_at (filter (\<lambda>p. p_user_id p = user_id) (posts db)))"

text \<open>The loop of \<open>get_feed\<close> over the accepted connections, appending the other side.\<close>

fun other_sides :: "int \<Rightarrow> Connection list \<Rightarrow> int list" where
  "other_sides user_id [] = []"
| "other_sides user_id (conn # conns) =
     (if requester_id conn = user_id then addressee_id conn else requester_id conn)
       # other_sides user_id conns"

definition connected_user_ids :: "Database \<Rightarrow> int \<Rightarrow> int list" where
  "connected_user_ids db user_id =
     other_sides user_id (get_user_connections db user_id) @ [user_id]"

definition get_feed :: "Database \<Rightarrow> int \<Rightarrow> nat \<Rightarrow> nat \<Rightarrow> Post list" where
  "get_feed db user_id skip limit =
     offset_limit skip limit
       (order_by_desc_created_at
          (filter (\<lambda>p. p_user_id p \<in> set (connected_user_ids db user_id)) (posts db)))"

subsection \<open>Interaction methods\<close>

definition like_rows :: "Database \<Rightarrow> int \<Rightarrow> int \<Rightarrow> Like list" where
  "like_rows db user_id post_id =
     filter (\<lambda>l. lk_user_id l = user_id \<and> lk_post_id l = post_id) (likes db)"

definition like_post ::
  "Database \<Rightarrow> int \<Rightarrow> int \<Rightarrow> int \<Rightarrow> Like returned \<times> Database" where
  "like_post db now user_id post_id =
     (case scalar_one_or_none (like_rows db user_id post_id) of
        Inl e \<Rightarrow> (Inl Exception_caught, db)
      | Inr (Some existing_like) \<Rightarrow>
          (Inl Unliked,
           db\<lparr>likes := filter (\<lambda>l. lk_id l \<noteq> lk_id existing_like) (likes db)\<rparr>)
      | Inr None \<Rightarrow>
          (let like = \<lparr>lk_id = next_id (map lk_id (likes db)),
                       lk_post_id = post_id,
                       lk_user_id = user_id,
                       lk_created_at = now\<rparr>
           in (Inr like, db\<lparr>likes := likes db @ [like]\<rparr>)))"

text \<open>
  \<open>comment_on_post\<close> looks nothing up before the insert; what can stop the insert is
  the engine, at the commit, and then the \<open>except Exception\<close> handler rolls back and
  returns \<open>None\<close>. Two checks of the engine are written out:
  \<^item> the integer columns hold signed 64-bit values, and the driver raises on a Python
    integer outside that range;
  \<^item> \<open>post_id\<close> is declared \<open>ForeignKey("posts.id")\<close>. An engine that enforces the
    declaration refuses a comment on a post that does not exist. The engine the
    application configures (the default \<open>sqlite:///./data/linkedin_clone.db\<close>, opened
    without \<open>PRAGMA foreign_keys\<close>) does not enforce it: \<open>shipped_engine\<close>.
  The users table is outside the model; the user id is that of the logged-in user.
\<close>

record Engine =
  foreign_keys :: bool

definition shipped_engine :: Engine where
  "shipped_engine = \<lparr>foreign_keys = False\<rparr>"

definition sqlite_integer :: "int \<Rightarrow> bool" where
  "sqlite_integer i = (- (2 ^ 63) \<le> i \<and> i < 2 ^ 63)"

definition post_reference_held :: "Engine \<Rightarrow> Database \<Rightarrow> int \<Rightarrow> bool" where
  "post_reference_held engine db post_id =
     (if foreign_keys engine then post_id \<in> set (map p_id (posts db)) else True)"

definition comment_on_post ::
  "Engine \<Rightarrow> Database \<Rightarrow> int \<Rightarrow> int \<Rightarrow> int \<Rightarrow> CommentCreate
     \<Rightarrow> Comment returned \<times> Database" where
  "comment_on_post engine db now user_id post_id comment_create =
     (let comment = \<lparr>cm_id = next_id (map cm_id (comments db)),
                     cm_post_id = post_id,
                     cm_user_id = user_id,
                     cm_content = cmc_content comment_create,
                     cm_created_at = now,
                     cm_updated_at = now\<rparr>
      in if sqlite_integer post_id \<and> sqlite_integer user_id
            \<and> post_reference_held engine db post_id
         then (Inr comment, db\<lparr>comments := comments db @ [comment]\<rparr>)
         else (Inl Exception_caught, db))"

text \<open>\<open>Post.like_count\<close>: the length of the post's \<open>likes\<close> relationship.\<close>

definition post_likes :: "Database \<Rightarrow> Post \<Rightarrow> Like list" where
  "post_likes db post = filter (\<lambda>l. lk_post_id l = p_id post) (likes db)"

definition like_count :: "Database \<Rightarrow> Post \<Rightarrow> nat" where
  "like_count db post = length (post_likes db post)"

section \<open>Sequences of calls\<close>

text \<open>
  A caller's history is a list of calls on the service, each with the time at which the
  engine carries it out; \<open>run\<close> threads the database through them, on the engine
  the application configures.
\<close>

datatype command =
    Send int int ConnectionCreate
  | Respond int int int bool
  | CreatePost int int PostCreate
  | LikePost int int int
  | CommentOnPost int int int CommentCreate

fun exec :: "Database \<Rightarrow> command \<Rightarrow> Database" where
  "exec db (Send now requester cc) = snd (send_connection_request db now requester cc)"
| "exec db (Respond now cid user_id accept) =
     snd (respond_to_connection db now cid user_id accept)"
| "exec db (CreatePost now user_id pc) = snd (create_post db now user_id pc)"
| "exec db (LikePost now user_id post_id) = snd (like_post db now user_id post_id)"
| "exec db (CommentOnPost now user_id post_id cmc) =
     snd (comment_on_post shipped_engine db now user_id post_id cmc)"

definition run :: "Database \<Rightarrow> command list \<Rightarrow> Database" where
  "run db cmds = foldl exec db cmds"

section \<open>The audience of a feed\<close>

text \<open>
  The audience of a feed in the words of the specification: the user, and the other side
  of each accepted connection of the user.
\<close>

definition audience_ids :: "Database \<Rightarrow> int \<Rightarrow> int set" where
  "audience_ids db user_id =
     {user_id} \<union>
     (\<lambda>c. if requester_id c = user_id then addressee_id c else requester_id c) `
       {c \<in> set (connections db).
          status c = ACCEPTED \<and> (requester_id c = user_id \<or> addressee_id c = user_id)}"

section \<open>Concrete states\<close>

text \<open>States and arguments on which the theorems below are evaluated.\<close>

definition request_to :: "int \<Rightarrow> ConnectionCreate" where
  "request_to addressee = \<lparr>cc_addressee_id = addressee, cc_message = None\<rparr>"

definition db_1_asks_2 :: Database where
  "db_1_asks_2 = snd (send_connection_request empty_db 10 1 (request_to 2))"

definition db_1_asks_1 :: Database where
  "db_1_asks_1 = snd (send_connection_request empty_db 10 1 (request_to 1))"

definition db_1_2_accepted :: Database where
  "db_1_2_accepted = run db_1_asks_2 [Respond 11 1 2 True]"

definition say :: "string \<Rightarrow> PostCreate" where
  "say content = \<lparr>pc_content = content\<rparr>"

text \<open>
  User 1 is connected with user 2 (accepted), has a pending request from user 3, was
  declined by user 4 and has nothing to do with user 5; each of them has one post.
\<close>

definition feed_db :: Database where
  "feed_db = run empty_db
     [Send 10 1 (request_to 2), Respond 11 1 2 True,
      Send 12 3 (request_to 1),
      Send 13 1 (request_to 4), Respond 14 3 4 False,
      CreatePost 20 1 (say ''mine''), CreatePost 21 2 (say ''hello''),
      CreatePost 22 3 (say ''pending''), CreatePost 23 4 (say ''declined''),
      CreatePost 24 5 (say ''stranger'')]"

definition solo_db :: Database where
  "solo_db = run empty_db [CreatePost 20 1 (say ''mine''), CreatePost 21 5 (say ''other'')]"

text \<open>User 1 has liked post 7; in \<open>twice_liked_db\<close> the table holds that like twice.\<close>

definition liked_db :: Database where
  "liked_db = run empty_db [LikePost 30 1 7]"

definition post_7 :: Post where
  "post_7 = \<lparr>p_id = 7, p_user_id = 2, p_content = ''seven'', p_image_url = None,
              p_created_at = 25, p_updated_at = 25\<rparr>"

definition twice_liked_db :: Database where
  "twice_liked_db =
     empty_db\<lparr>likes := [\<lparr>lk_id = 1, lk_post_id = 7, lk_user_id = 1, lk_created_at = 30\<rparr>,
                        \<lparr>lk_id = 2, lk_post_id = 7, lk_user_id = 1, lk_created_at = 30\<rparr>]\<rparr>"

text \<open>
  Seven posts; the posts with ids 5 and 7 are by user 1 and were created at the same
  time 100.
\<close>

definition tie_db :: Database where
  "tie_db = run empty_db
     [CreatePost 1 9 (say ''a''), CreatePost 2 9 (say ''b''), CreatePost 3 9 (say ''c''),
      CreatePost 4 9 (say ''d''), CreatePost 100 1 (say ''five''),
      CreatePost 50 9 (say ''f''), CreatePost 100 1 (say ''seven'')]"

text \<open>Users 1 and 2 ask user 3, at times 10 and 20.\<close>

definition pending_db :: Database where
  "pending_db = run empty_db [Send 10 1 (request_to 3), Send 20 2 (request_to 3)]"

definition remark :: "string \<Rightarrow> CommentCreate" where
  "remark content = \<lparr>cmc_content = content\<rparr>"

lemmas eval_defs = send_connection_request_def respond_to_connection_def pair_rows_def
  empty_db_def next_id_def request_to_def db_1_asks_2_def run_def db_get_connection_def
  get_user_connections_def get_pending_requests_def Let_def

section \<open>Facts about the storage session and the connection table\<close>

lemma scalar_one_or_none_cases:
  "scalar_one_or_none xs =
     (if xs = [] then Inr None else if length xs = 1 then Inr (Some (hd xs))
      else Inl MultipleResultsFound)"
  by (cases xs rule: scalar_one_or_none.cases) simp_all

lemma pair_rows_commute: "pair_rows db a b = pair_rows db b a"
  unfolding pair_rows_def by (rule filter_cong) auto

lemma send_when_one_row:
  "length (pair_rows db a b) = 1 \<Longrightarrow> cc_addressee_id cc = b \<Longrightarrow>
   send_connection_request db now a cc = (Inl Connection_exists, db)"
  by (auto simp: send_connection_request_def scalar_one_or_none_cases)

lemma send_success_rows:
  assumes "send_connection_request db now a cc = (Inr conn, db1)"
  shows "pair_rows db a (cc_addressee_id cc) = []"
    and "connections db1 = connections db @ [conn]"
    and "requester_id conn = a" and "addressee_id conn = cc_addressee_id cc"
    and "status conn = PENDING"
  using assms
  by (auto simp: send_connection_request_def scalar_one_or_none_cases Let_def
           split: if_splits)

lemma send_success_one_row:
  assumes "send_connection_request db now a cc = (Inr conn, db1)"
  shows "pair_rows db1 a (cc_addressee_id cc) = [conn]"
  using send_success_rows[OF assms] by (simp add: pair_rows_def)

lemma send_connections:
  "connections (snd (send_connection_request db now r cc)) = connections db
   \<or> (pair_rows db r (cc_addressee_id cc) = []
      \<and> (\<exists>conn. connections (snd (send_connection_request db now r cc)) = connections db @ [conn]
             \<and> requester_id conn = r \<and> addressee_id conn = cc_addressee_id cc))"
  by (simp add: send_connection_request_def scalar_one_or_none_cases Let_def)

lemma send_keeps_one_row:
  assumes "length (pair_rows db a b) = 1"
  shows "length (pair_rows (snd (send_connection_request db now r cc)) a b) = 1"
proof -
  let ?db' = "snd (send_connection_request db now r cc)"
  from send_connections[of db now r cc] show ?thesis
  proof
    assume "connections ?db' = connections db"
    then show ?thesis using assms by (simp add: pair_rows_def)
  next
    assume "pair_rows db r (cc_addressee_id cc) = []
      \<and> (\<exists>conn. connections ?db' = connections db @ [conn]
             \<and> requester_id conn = r \<and> addressee_id conn = cc_addressee_id cc)"
    then obtain conn where e: "pair_rows db r (cc_addressee_id cc) = []"
      and c: "connections ?db' = connections db @ [conn]"
      and r: "requester_id conn = r" and d: "addressee_id conn = cc_addressee_id cc"
      by blast
    have "\<not> ((r = a \<and> cc_addressee_id cc = b) \<or> (r = b \<and> cc_addressee_id cc = a))"
      using e assms pair_rows_commute[of db a b] by auto
    then show ?thesis using assms c r d by (auto simp: pair_rows_def)
  qed
qed

lemma length_filter_map_same:
  "(\<And>x. P (f x) = P x) \<Longrightarrow> length (filter P (map f xs)) = length (filter P xs)"
  by (induction xs) simp_all

lemma respond_connections:
  "connections (snd (respond_to_connection db now cid u acc)) = connections db
   \<or> (\<exists>s. connections (snd (respond_to_connection db now cid u acc))
          = map (\<lambda>c. if c_id c = cid then c\<lparr>status := s, c_updated_at := now\<rparr> else c)
              (connections db))"
  by (auto simp: respond_to_connection_def Let_def split: option.splits)

lemma respond_keeps_pair_rows_length:
  "length (pair_rows (snd (respond_to_connection db now cid u acc)) a b)
   = length (pair_rows db a b)"
proof -
  let ?P = "\<lambda>c. (requester_id c = a \<and> addressee_id c = b)
                \<or> (requester_id c = b \<and> addressee_id c = a)"
  have "length (filter ?P (map (\<lambda>c. if c_id c = cid
            then c\<lparr>status := s, c_updated_at := now\<rparr> else c) xs))
        = length (filter ?P xs)" for s and xs :: "Connection list"
    by (rule length_filter_map_same) simp
  then show ?thesis
    using respond_connections[of db now cid u acc] unfolding pair_rows_def
    by (elim disjE exE) (simp_all only:)
qed

lemma exec_keeps_one_row:
  "length (pair_rows db a b) = 1 \<Longrightarrow> length (pair_rows (exec db cmd) a b) = 1"
proof (cases cmd)
  case (Send now r cc)
  then show "length (pair_rows db a b) = 1 \<Longrightarrow> ?thesis"
    by (simp add: send_keeps_one_row)
next
  case (Respond now cid u acc)
  then show "length (pair_rows db a b) = 1 \<Longrightarrow> ?thesis"
    by (simp add: respond_keeps_pair_rows_length)
next
  case (CreatePost now u pc)
  then show "length (pair_rows db a b) = 1 \<Longrightarrow> ?thesis"
    by (simp add: create_post_def pair_rows_def Let_def)
next
  case (LikePost now u p)
  then show "length (pair_rows db a b) = 1 \<Longrightarrow> ?thesis"
    by (simp add: like_post_def pair_rows_def Let_def scalar_one_or_none_cases)
next
  case (CommentOnPost now u p cmc)
  then show "length (pair_rows db a b) = 1 \<Longrightarrow> ?thesis"
    by (simp add: comment_on_post_def pair_rows_def Let_def)
qed

lemma run_keeps_one_row:
  "length (pair_rows db a b) = 1 \<Longrightarrow> length (pair_rows (run db cmds) a b) = 1"
  unfolding run_def
  by (induction cmds arbitrary: db) (simp_all add: exec_keeps_one_row)

lemma next_id_fresh: "x \<in> set ids \<Longrightarrow> x < next_id ids"
  unfolding next_id_def by (induction ids) auto

lemma find_fresh_append:
  "\<forall>x \<in> set xs. \<not> P x \<Longrightarrow> P y \<Longrightarrow> find P (xs @ [y]) = Some y"
  by (induction xs) simp_all

lemma find_map_same_key:
  "(\<And>x. P (f x) = P x) \<Longrightarrow> find P (map f xs) = map_option f (find P xs)"
  by (induction xs) simp_all

lemma other_sides_mem:
  "c \<in> set cs \<Longrightarrow>
   (if requester_id c = u then addressee_id c else requester_id c) \<in> set (other_sides u cs)"
  by (induction cs) auto

lemma set_other_sides:
  "set (other_sides u cs)
   = (\<lambda>c. if requester_id c = u then addressee_id c else requester_id c) ` set cs"
  by (induction cs) auto

lemma send_success_get:
  assumes "send_connection_request db now a cc = (Inr conn, db1)"
  shows "db_get_connection db1 (c_id conn) = Some conn"
proof -
  have i: "c_id conn = next_id (map c_id (connections db))"
    using assms
    by (auto simp: send_connection_request_def scalar_one_or_none_cases Let_def
             split: if_splits)
  have "\<forall>x \<in> set (connections db). c_id x \<noteq> c_id conn"
    using next_id_fresh[of _ "map c_id (connections db)"] i by fastforce
  then show ?thesis
    unfolding db_get_connection_def send_success_rows(2)[OF assms]
    by (intro find_fresh_append) simp_all
qed

lemma respond_Invalid:
  "db_get_connection db cid = None \<Longrightarrow>
   respond_to_connection db now cid u acc = (Inl Invalid_response, db)"
  "db_get_connection db cid = Some c \<Longrightarrow> addressee_id c \<noteq> u \<Longrightarrow>
   respond_to_connection db now cid u acc = (Inl Invalid_response, db)"
  by (simp_all add: respond_to_connection_def)

lemma respond_by_addressee:
  assumes "db_get_connection db cid = Some c" and "addressee_id c = u"
  shows "\<exists>c'. fst (respond_to_connection db now cid u acc) = Inr c'
      \<and> status c' = (if acc then ACCEPTED else DECLINED)
      \<and> c_id c' = c_id c \<and> requester_id c' = requester_id c
      \<and> addressee_id c' = addressee_id c
      \<and> db_get_connection (snd (respond_to_connection db now cid u acc)) cid = Some c'"
proof -
  let ?s = "if acc then ACCEPTED else DECLINED"
  show ?thesis
  proof (cases "status c = ?s")
    case True
    then have "respond_to_connection db now cid u acc = (Inr c, db)"
      using assms by (simp add: respond_to_connection_def)
    then show ?thesis using True assms by simp
  next
    case False
    let ?f = "\<lambda>x. if c_id x = cid then x\<lparr>status := ?s, c_updated_at := now\<rparr> else x"
    have r: "respond_to_connection db now cid u acc
        = (Inr (c\<lparr>status := ?s, c_updated_at := now\<rparr>),
           db\<lparr>connections := map ?f (connections db)\<rparr>)"
      using False assms by (simp add: respond_to_connection_def Let_def)
    have k: "c_id c = cid"
      using assms(1) unfolding db_get_connection_def by (auto simp: find_Some_iff)
    have "find (\<lambda>x. c_id x = cid) (map ?f (connections db))
          = map_option ?f (find (\<lambda>x. c_id x = cid) (connections db))"
      by (rule find_map_same_key) simp
    then have "db_get_connection (db\<lparr>connections := map ?f (connections db)\<rparr>) cid
          = Some (c\<lparr>status := ?s, c_updated_at := now\<rparr>)"
      using assms(1) k by (simp add: db_get_connection_def)
    then show ?thesis using r by simp
  qed
qed

lemma db_get_mem: "db_get_connection db cid = Some c \<Longrightarrow> c \<in> set (connections db)"
  unfolding db_get_connection_def by (auto simp: find_Some_iff)

lemma connected_user_ids_audience:
  "set (connected_user_ids db u) = audience_ids db u"
  by (auto simp: connected_user_ids_def audience_ids_def set_other_sides
        get_user_connections_def)

lemma mset_order_by_desc: "mset (order_by_desc_created_at ps) = mset ps"
  by (simp add: order_by_desc_created_at_def)

lemma set_order_by_desc: "set (order_by_desc_created_at ps) = set ps"
  by (simp add: order_by_desc_created_at_def)

lemma length_order_by_desc: "length (order_by_desc_created_at ps) = length ps"
  by (simp add: order_by_desc_created_at_def)

lemma offset_limit_all: "length xs \<le> limit \<Longrightarrow> offset_limit 0 limit xs = xs"
  by (simp add: offset_limit_def)

lemma set_offset_limit: "set (offset_limit skip limit xs) \<subseteq> set xs"
  unfolding offset_limit_def
  by (meson set_take_subset set_drop_subset subset_trans)

lemma get_feed_audience:
  "get_feed db u skip limit =
     offset_limit skip limit
       (order_by_desc_created_at (filter (\<lambda>p. p_user_id p \<in> audience_ids db u) (posts db)))"
  by (simp add: get_feed_def connected_user_ids_audience)

lemma not_in_audience:
  assumes "v \<noteq> u" and "\<forall>c \<in> set (pair_rows db u v). status c \<noteq> ACCEPTED"
  shows "v \<notin> audience_ids db u"
  using assms unfolding audience_ids_def pair_rows_def
  by (auto split: if_splits)

lemma feed_db_connections:
  "connections feed_db =
    [\<lparr>c_id = 1, requester_id = 1, addressee_id = 2, status = ACCEPTED,
       message = None, c_created_at = 10, c_updated_at = 11\<rparr>,
     \<lparr>c_id = 2, requester_id = 3, addressee_id = 1, status = PENDING,
       message = None, c_created_at = 12, c_updated_at = 12\<rparr>,
     \<lparr>c_id = 3, requester_id = 1, addressee_id = 4, status = DECLINED,
       message = None, c_created_at = 13, c_updated_at = 14\<rparr>]"
  by (simp add: feed_db_def eval_defs create_post_def say_def)

lemma feed_db_posts:
  "posts feed_db =
    [\<lparr>p_id = 1, p_user_id = 1, p_content = ''mine'', p_image_url = None,
       p_created_at = 20, p_updated_at = 20\<rparr>,
     \<lparr>p_id = 2, p_user_id = 2, p_content = ''hello'', p_image_url = None,
       p_created_at = 21, p_updated_at = 21\<rparr>,
     \<lparr>p_id = 3, p_user_id = 3, p_content = ''pending'', p_image_url = None,
       p_created_at = 22, p_updated_at = 22\<rparr>,
     \<lparr>p_id = 4, p_user_id = 4, p_content = ''declined'', p_image_url = None,
       p_created_at = 23, p_updated_at = 23\<rparr>,
     \<lparr>p_id = 5, p_user_id = 5, p_content = ''stranger'', p_image_url = None,
       p_created_at = 24, p_updated_at = 24\<rparr>]"
  by (simp add: feed_db_def eval_defs create_post_def say_def)

lemma solo_db_eq:
  "solo_db = \<lparr>connections = [],
     posts = [\<lparr>p_id = 1, p_user_id = 1, p_content = ''mine'', p_image_url = None,
                p_created_at = 20, p_updated_at = 20\<rparr>,
              \<lparr>p_id = 2, p_user_id = 5, p_content = ''other'', p_image_url = None,
                p_created_at = 21, p_updated_at = 21\<rparr>],
     comments = [], likes = []\<rparr>"
  by (simp add: solo_db_def eval_defs create_post_def say_def)

lemma filter_fresh_id:
  "filter (\<lambda>l. lk_id l \<noteq> next_id (map lk_id ls)) ls = ls"
proof -
  have "\<forall>l \<in> set ls. lk_id l \<noteq> next_id (map lk_id ls)"
    using next_id_fresh[of _ "map lk_id ls"] by fastforce
  then show ?thesis by simp
qed

lemma like_post_liked:
  assumes "like_rows db u p = []"
  shows "like_post db now u p
     = (Inr \<lparr>lk_id = next_id (map lk_id (likes db)), lk_post_id = p, lk_user_id = u,
              lk_created_at = now\<rparr>,
        db\<lparr>likes := likes db @ [\<lparr>lk_id = next_id (map lk_id (likes db)), lk_post_id = p,
              lk_user_id = u, lk_created_at = now\<rparr>]\<rparr>)"
  using assms by (simp add: like_post_def Let_def)

lemma like_post_unliked:
  assumes "like_rows db u p = [l]"
  shows "like_post db now u p
     = (Inl Unliked, db\<lparr>likes := filter (\<lambda>x. lk_id x \<noteq> lk_id l) (likes db)\<rparr>)"
  using assms by (simp add: like_post_def)

lemma like_post_raised:
  assumes "1 < length (like_rows db u p)"
  shows "like_post db now u p = (Inl Exception_caught, db)"
  using assms by (auto simp: like_post_def scalar_one_or_none_cases)

lemma sorted_order_by_desc:
  "sorted_wrt (\<lambda>p q. p_created_at q \<le> p_created_at p) (order_by_desc_created_at ps)"
proof -
  have "sorted (map (\<lambda>p. - p_created_at p) (sort_key (\<lambda>p. - p_created_at p) ps))"
    by (rule sorted_sort_key)
  then show ?thesis
    by (simp add: order_by_desc_created_at_def sorted_map)
qed

lemma sorted_wrt_offset_limit:
  "sorted_wrt R xs \<Longrightarrow> sorted_wrt R (offset_limit skip limit xs)"
  unfolding offset_limit_def by (intro sorted_wrt_take sorted_wrt_drop)

lemma order_by_desc_ties:
  "filter (\<lambda>p. p_created_at p = t) (order_by_desc_created_at ps)
   = filter (\<lambda>p. p_created_at p = t) ps"
proof -
  have "filter (\<lambda>p. - p_created_at p = - t) (sort_key (\<lambda>p. - p_created_at p) ps)
      = filter (\<lambda>p. - p_created_at p = - t) ps"
    by (rule sort_key_stable)
  then show ?thesis by (simp add: order_by_desc_created_at_def)
qed

section \<open>Connection requests\<close>

text \<open>
  C1. Let \<open>A \<noteq> B\<close> and let \<open>send_connection_request\<close> from \<open>A\<close> to \<open>B\<close>
  succeed. Then after any further calls on the service, a request from \<open>A\<close> to
  \<open>B\<close> and a request from \<open>B\<close> to \<open>A\<close> both return at the
  "Connection already exists" statement (the caller gets \<open>None\<close>) and leave the
  database as it was: the table still holds exactly one record for the pair, and its
  status, which the further calls may have turned to Accepted or Declined, plays no part.
\<close>

theorem send_connection_request_duplicate_blocked:
  assumes "A \<noteq> B"
    and "cc_addressee_id cc = B"
    and "send_connection_request db now A cc = (Inr conn, db1)"
    and "cc_addressee_id ccAB = B" and "cc_addressee_id ccBA = A"
  shows "send_connection_request (run db1 cmds) now' A ccAB
           = (Inl Connection_exists, run db1 cmds)
       \<and> send_connection_request (run db1 cmds) now' B ccBA
           = (Inl Connection_exists, run db1 cmds)
       \<and> (\<exists>c. pair_rows (run db1 cmds) A B = [c])"
proof -
  have "pair_rows db1 A B = [conn]"
    using send_success_one_row[OF assms(3)] assms(2) by simp
  then have one: "length (pair_rows (run db1 cmds) A B) = 1"
    by (simp add: run_keeps_one_row)
  then have one': "length (pair_rows (run db1 cmds) B A) = 1"
    by (simp add: pair_rows_commute[of _ B A])
  have "\<exists>c. pair_rows (run db1 cmds) A B = [c]"
    using one by (cases "pair_rows (run db1 cmds) A B") simp_all
  then show ?thesis
    using send_when_one_row[OF one assms(4)] send_when_one_row[OF one' assms(5)]
    by simp
qed

theorem send_connection_request_duplicate_blocked_witness:
  "(1::int) \<noteq> 2
   \<and> py_value (fst (send_connection_request empty_db 10 1 (request_to 2))) \<noteq> None
   \<and> map status (connections (run db_1_asks_2 [Respond 11 1 2 False])) = [DECLINED]
   \<and> send_connection_request (run db_1_asks_2 [Respond 11 1 2 False]) 12 1 (request_to 2)
       = (Inl Connection_exists, run db_1_asks_2 [Respond 11 1 2 False])
   \<and> send_connection_request (run db_1_asks_2 [Respond 11 1 2 False]) 12 2 (request_to 1)
       = (Inl Connection_exists, run db_1_asks_2 [Respond 11 1 2 False])"
proof -
  have s: "send_connection_request empty_db 10 1 (request_to 2)
           = (Inr \<lparr>c_id = 1, requester_id = 1, addressee_id = 2, status = PENDING,
                   message = None, c_created_at = 10, c_updated_at = 10\<rparr>, db_1_asks_2)"
    by (simp add: eval_defs)
  have d: "map status (connections (run db_1_asks_2 [Respond 11 1 2 False])) = [DECLINED]"
    by (simp add: eval_defs)
  show ?thesis
    using send_connection_request_duplicate_blocked
      [OF _ _ s, of 2 "request_to 2" "request_to 1" "[Respond 11 1 2 False]" 12] s d
    by (simp add: request_to_def)
qed

text \<open>
  The service has no check that the requester differs from the addressee: on the empty
  database a request of user 1 to user 1 is stored and returned.
\<close>

theorem send_self_request_created_counterexample:
  "py_value (fst (send_connection_request empty_db 10 1 (request_to 1)))
     = Some \<lparr>c_id = 1, requester_id = 1, addressee_id = 1, status = PENDING,
             message = None, c_created_at = 10, c_updated_at = 10\<rparr>
   \<and> connections (snd (send_connection_request empty_db 10 1 (request_to 1)))
     = [\<lparr>c_id = 1, requester_id = 1, addressee_id = 1, status = PENDING,
         message = None, c_created_at = 10, c_updated_at = 10\<rparr>]"
  by (simp add: eval_defs)

text \<open>
  C2, as the code has it. A request of \<open>A\<close> to \<open>A\<close> is treated like any other
  request: when the table holds no record from \<open>A\<close> to \<open>A\<close> it creates and
  returns a Pending record from \<open>A\<close> to \<open>A\<close>; when it holds one it returns
  \<open>None\<close> and the database is unchanged.
\<close>

theorem send_self_request:
  assumes "cc_addressee_id cc = A"
  shows "(pair_rows db A A = [] \<longrightarrow>
            (\<exists>conn. send_connection_request db now A cc
                      = (Inr conn, db\<lparr>connections := connections db @ [conn]\<rparr>)
                  \<and> requester_id conn = A \<and> addressee_id conn = A
                  \<and> status conn = PENDING))
       \<and> (pair_rows db A A \<noteq> [] \<longrightarrow>
            py_value (fst (send_connection_request db now A cc)) = None
            \<and> snd (send_connection_request db now A cc) = db)"
  using assms
  by (auto simp: send_connection_request_def scalar_one_or_none_cases Let_def)

theorem send_self_request_witness:
  "cc_addressee_id (request_to 1) = 1
   \<and> pair_rows empty_db 1 1 = []
   \<and> (\<exists>conn. send_connection_request empty_db 10 1 (request_to 1)
                      = (Inr conn, empty_db\<lparr>connections := connections empty_db @ [conn]\<rparr>)
                  \<and> requester_id conn = 1 \<and> addressee_id conn = 1
                  \<and> status conn = PENDING)
   \<and> pair_rows db_1_asks_1 1 1 \<noteq> []
   \<and> py_value (fst (send_connection_request db_1_asks_1 11 1 (request_to 1))) = None
   \<and> snd (send_connection_request db_1_asks_1 11 1 (request_to 1)) = db_1_asks_1"
proof -
  have a: "cc_addressee_id (request_to 1) = 1" by (simp add: request_to_def)
  have e: "pair_rows empty_db 1 1 = []" by (simp add: eval_defs)
  have n: "pair_rows db_1_asks_1 1 1 \<noteq> []" by (simp add: eval_defs db_1_asks_1_def)
  show ?thesis
    using send_self_request[OF a, of empty_db 10] send_self_request[OF a, of db_1_asks_1 11]
      a e n
    by blast
qed

section \<open>Responding to a request\<close>

text \<open>
  The status of the record is not read before it is overwritten: the addressee of an
  Accepted connection can decline it afterwards, and the stored record changes.
\<close>

theorem respond_after_accept_counterexample:
  "map status (connections db_1_2_accepted) = [ACCEPTED]
   \<and> py_value (fst (respond_to_connection db_1_2_accepted 12 1 2 False))
       = Some \<lparr>c_id = 1, requester_id = 1, addressee_id = 2, status = DECLINED,
               message = None, c_created_at = 10, c_updated_at = 12\<rparr>
   \<and> map status (connections (snd (respond_to_connection db_1_2_accepted 12 1 2 False)))
       = [DECLINED]"
  by (simp add: eval_defs db_1_2_accepted_def)

text \<open>
  C3, as the code has it. \<open>respond_to_connection\<close> returns at the "Invalid
  connection response attempt" statement (\<open>None\<close> for the caller, with no
  distinction between the two cases) and leaves the database unchanged when the
  connection id is unknown and when the acting user is not the addressee of the
  connection; so a requester who is not also the addressee cannot approve the request.
  When the acting user is the addressee the call succeeds in every status of the record:
  the returned record, which is the one then stored under that id, has the status
  Accepted or Declined that \<open>accept\<close> asks for, and the same id and sides.
\<close>

theorem respond_to_connection_outcomes:
  "(db_get_connection db cid = None \<longrightarrow>
      respond_to_connection db now cid u acc = (Inl Invalid_response, db))
   \<and> (\<forall>c. db_get_connection db cid = Some c \<longrightarrow>
        (addressee_id c \<noteq> u \<longrightarrow>
           respond_to_connection db now cid u acc = (Inl Invalid_response, db))
      \<and> (requester_id c = u \<and> requester_id c \<noteq> addressee_id c \<longrightarrow>
           respond_to_connection db now cid u acc = (Inl Invalid_response, db))
      \<and> (addressee_id c = u \<longrightarrow>
           (\<exists>c'. fst (respond_to_connection db now cid u acc) = Inr c'
              \<and> status c' = (if acc then ACCEPTED else DECLINED)
              \<and> c_id c' = c_id c \<and> requester_id c' = requester_id c
              \<and> addressee_id c' = addressee_id c
              \<and> db_get_connection (snd (respond_to_connection db now cid u acc)) cid
                  = Some c')))"
proof (intro conjI allI impI)
  assume "db_get_connection db cid = None"
  then show "respond_to_connection db now cid u acc = (Inl Invalid_response, db)"
    by (rule respond_Invalid(1))
next
  fix c assume "db_get_connection db cid = Some c" and "addressee_id c \<noteq> u"
  then show "respond_to_connection db now cid u acc = (Inl Invalid_response, db)"
    by (rule respond_Invalid(2))
next
  fix c assume g: "db_get_connection db cid = Some c"
    and "requester_id c = u \<and> requester_id c \<noteq> addressee_id c"
  then have "addressee_id c \<noteq> u" by auto
  with g show "respond_to_connection db now cid u acc = (Inl Invalid_response, db)"
    by (rule respond_Invalid(2))
next
  fix c assume "db_get_connection db cid = Some c" and "addressee_id c = u"
  then show "\<exists>c'. fst (respond_to_connection db now cid u acc) = Inr c'
              \<and> status c' = (if acc then ACCEPTED else DECLINED)
              \<and> c_id c' = c_id c \<and> requester_id c' = requester_id c
              \<and> addressee_id c' = addressee_id c
              \<and> db_get_connection (snd (respond_to_connection db now cid u acc)) cid
                  = Some c'"
    by (rule respond_by_addressee)
qed

theorem respond_to_connection_outcomes_witness:
  "db_get_connection db_1_asks_2 7 = None
   \<and> respond_to_connection db_1_asks_2 11 7 2 True = (Inl Invalid_response, db_1_asks_2)
   \<and> db_get_connection db_1_asks_2 1
       = Some \<lparr>c_id = 1, requester_id = 1, addressee_id = 2, status = PENDING,
               message = None, c_created_at = 10, c_updated_at = 10\<rparr>
   \<and> respond_to_connection db_1_asks_2 11 1 1 True = (Inl Invalid_response, db_1_asks_2)
   \<and> (\<exists>c'. fst (respond_to_connection db_1_asks_2 11 1 2 False) = Inr c'
          \<and> status c' = DECLINED
          \<and> db_get_connection (snd (respond_to_connection db_1_asks_2 11 1 2 False)) 1
              = Some c')"
proof -
  let ?c = "\<lparr>c_id = 1, requester_id = 1, addressee_id = 2, status = PENDING,
             message = None, c_created_at = 10, c_updated_at = 10\<rparr>"
  have n: "db_get_connection db_1_asks_2 7 = None" by (simp add: eval_defs)
  have g: "db_get_connection db_1_asks_2 1 = Some ?c" by (simp add: eval_defs)
  have 1: "respond_to_connection db_1_asks_2 11 7 2 True = (Inl Invalid_response, db_1_asks_2)"
    using respond_to_connection_outcomes[of db_1_asks_2 7 11 2 True] n by blast
  have 2: "respond_to_connection db_1_asks_2 11 1 1 True = (Inl Invalid_response, db_1_asks_2)"
    using respond_to_connection_outcomes[of db_1_asks_2 1 11 1 True] g by simp
  have 3: "\<exists>c'. fst (respond_to_connection db_1_asks_2 11 1 2 False) = Inr c'
          \<and> status c' = DECLINED
          \<and> db_get_connection (snd (respond_to_connection db_1_asks_2 11 1 2 False)) 1
              = Some c'"
    using respond_to_connection_outcomes[of db_1_asks_2 1 11 2 False] g by auto
  show ?thesis using n g 1 2 3 by blast
qed

text \<open>
  C4. After a successful request from \<open>A\<close> to \<open>B\<close>, the response of \<open>B\<close>
  with \<open>accept = True\<close> succeeds; the record returned and stored is Accepted; it is
  among the accepted connections of \<open>A\<close> and among those of \<open>B\<close>; and
  resolving the other side, as the loop of \<open>get_feed\<close> does, gives \<open>B\<close> for
  \<open>A\<close> and \<open>A\<close> for \<open>B\<close>.
\<close>

theorem accepted_connection_symmetric:
  assumes "cc_addressee_id cc = B"
    and "send_connection_request db now A cc = (Inr conn, db1)"
  shows "\<exists>conn' db2. respond_to_connection db1 now' (c_id conn) B True = (Inr conn', db2)
      \<and> status conn' = ACCEPTED
      \<and> db_get_connection db2 (c_id conn) = Some conn'
      \<and> conn' \<in> set (get_user_connections db2 A)
      \<and> conn' \<in> set (get_user_connections db2 B)
      \<and> B \<in> set (other_sides A (get_user_connections db2 A))
      \<and> A \<in> set (other_sides B (get_user_connections db2 B))"
proof -
  let ?r = "respond_to_connection db1 now' (c_id conn) B True"
  have g: "db_get_connection db1 (c_id conn) = Some conn"
    by (rule send_success_get[OF assms(2)])
  have ra: "requester_id conn = A" and ad: "addressee_id conn = B"
    using send_success_rows(3,4)[OF assms(2)] assms(1) by simp_all
  from respond_by_addressee[OF g ad, of now' True]
  obtain c' where f: "fst ?r = Inr c'" and st: "status c' = ACCEPTED"
    and r': "requester_id c' = A" and a': "addressee_id c' = B"
    and g': "db_get_connection (snd ?r) (c_id conn) = Some c'"
    using ra ad by auto
  have m: "c' \<in> set (connections (snd ?r))" by (rule db_get_mem[OF g'])
  have uA: "c' \<in> set (get_user_connections (snd ?r) A)"
    and uB: "c' \<in> set (get_user_connections (snd ?r) B)"
    using m st r' a' by (simp_all add: get_user_connections_def)
  have oA: "B \<in> set (other_sides A (get_user_connections (snd ?r) A))"
    using other_sides_mem[OF uA, of A] r' a' by simp
  have oB: "A \<in> set (other_sides B (get_user_connections (snd ?r) B))"
    using other_sides_mem[OF uB, of B] r' a' by (simp split: if_splits)
  have "?r = (Inr c', snd ?r)" using f by (simp add: prod_eq_iff)
  then show ?thesis using st g' uA uB oA oB by blast
qed

theorem accepted_connection_symmetric_witness:
  "cc_addressee_id (request_to 2) = 2
   \<and> py_value (fst (send_connection_request empty_db 10 1 (request_to 2))) \<noteq> None
   \<and> (\<exists>conn' db2. respond_to_connection db_1_asks_2 11 1 2 True = (Inr conn', db2)
      \<and> status conn' = ACCEPTED
      \<and> db_get_connection db2 1 = Some conn'
      \<and> conn' \<in> set (get_user_connections db2 1)
      \<and> conn' \<in> set (get_user_connections db2 2)
      \<and> 2 \<in> set (other_sides 1 (get_user_connections db2 1))
      \<and> 1 \<in> set (other_sides 2 (get_user_connections db2 2)))"
proof -
  let ?c = "\<lparr>c_id = 1, requester_id = 1, addressee_id = 2, status = PENDING,
             message = None, c_created_at = 10, c_updated_at = 10\<rparr>"
  have a: "cc_addressee_id (request_to 2) = 2" by (simp add: request_to_def)
  have s: "send_connection_request empty_db 10 1 (request_to 2) = (Inr ?c, db_1_asks_2)"
    by (simp add: eval_defs)
  show ?thesis
    using accepted_connection_symmetric[OF a s, of 11] a s by simp
qed

section \<open>Pending requests\<close>

text \<open>
  The query of \<open>get_pending_requests\<close> has no \<open>order_by\<close>: two requests to
  user 3, sent at times 10 and 20, come back in the order of the table, the older first.
\<close>

theorem get_pending_requests_order_counterexample:
  "map (\<lambda>c. (c_id c, c_created_at c)) (get_pending_requests pending_db 3) = [(1, 10), (2, 20)]
   \<and> \<not> sorted_wrt (\<lambda>c d. c_created_at d \<le> c_created_at c) (get_pending_requests pending_db 3)"
  by (simp add: pending_db_def eval_defs)

text \<open>
  C8, as the code has it. \<open>get_pending_requests\<close> returns exactly the connections
  whose addressee is the user and whose status is Pending, in the order in which the
  table holds them; no ordering by creation time is applied.
\<close>

theorem get_pending_requests_rows:
  "set (get_pending_requests db u)
     = {c \<in> set (connections db). addressee_id c = u \<and> status c = PENDING}
   \<and> subseq (get_pending_requests db u) (connections db)"
  by (auto simp: get_pending_requests_def)

theorem get_pending_requests_rows_witness:
  "set (get_pending_requests feed_db 1)
     = {\<lparr>c_id = 2, requester_id = 3, addressee_id = 1, status = PENDING,
         message = None, c_created_at = 12, c_updated_at = 12\<rparr>}
   \<and> subseq (get_pending_requests feed_db 1) (connections feed_db)"
proof -
  have "{c \<in> set (connections feed_db). addressee_id c = 1 \<and> status c = PENDING}
     = {\<lparr>c_id = 2, requester_id = 3, addressee_id = 1, status = PENDING,
         message = None, c_created_at = 12, c_updated_at = 12\<rparr>}"
    by (auto simp: feed_db_connections)
  then show ?thesis
    using get_pending_requests_rows[of feed_db 1] by simp
qed

section \<open>The feed\<close>

text \<open>
  C5. The feed of \<open>u\<close> is the \<open>offset\<close>/\<open>limit\<close> window of the posts whose
  author is in the audience (the user and the other side of each accepted connection of
  the user), newest first; when the limit covers the table it holds exactly those posts.
  With no accepted connection and one post by \<open>u\<close> it is exactly that post. A post
  of another user \<open>v\<close>, when no record for the pair of \<open>u\<close> and \<open>v\<close> is
  Accepted (there is none, or it is Pending or Declined), is in no window of the feed.
\<close>

theorem get_feed_audience_posts:
  "get_feed db u skip limit =
     offset_limit skip limit
       (order_by_desc_created_at (filter (\<lambda>p. p_user_id p \<in> audience_ids db u) (posts db)))
   \<and> (length (posts db) \<le> limit \<longrightarrow>
        mset (get_feed db u 0 limit)
          = mset (filter (\<lambda>p. p_user_id p \<in> audience_ids db u) (posts db)))
   \<and> (get_user_connections db u = [] \<and> filter (\<lambda>p. p_user_id p = u) (posts db) = [post]
        \<and> 0 < limit \<longrightarrow> get_feed db u 0 limit = [post])
   \<and> (v \<noteq> u \<and> (\<forall>c \<in> set (pair_rows db u v). status c \<noteq> ACCEPTED) \<longrightarrow>
        (\<forall>p \<in> set (get_feed db u skip limit). p_user_id p \<noteq> v))"
proof (intro conjI impI)
  show "get_feed db u skip limit =
     offset_limit skip limit
       (order_by_desc_created_at (filter (\<lambda>p. p_user_id p \<in> audience_ids db u) (posts db)))"
    by (rule get_feed_audience)
next
  assume l: "length (posts db) \<le> limit"
  let ?f = "filter (\<lambda>p. p_user_id p \<in> audience_ids db u) (posts db)"
  have "length (order_by_desc_created_at ?f) \<le> limit"
    using le_trans[OF length_filter_le l] by (simp add: length_order_by_desc)
  then show "mset (get_feed db u 0 limit) = mset ?f"
    by (simp add: get_feed_audience offset_limit_all mset_order_by_desc)
next
  assume a: "get_user_connections db u = [] \<and> filter (\<lambda>p. p_user_id p = u) (posts db) = [post]
        \<and> 0 < limit"
  then have "connected_user_ids db u = [u]" by (simp add: connected_user_ids_def)
  then have "get_feed db u 0 limit = offset_limit 0 limit (order_by_desc_created_at [post])"
    using a by (simp add: get_feed_def)
  then show "get_feed db u 0 limit = [post]"
    using a by (simp add: offset_limit_def order_by_desc_created_at_def)
next
  assume a: "v \<noteq> u \<and> (\<forall>c \<in> set (pair_rows db u v). status c \<noteq> ACCEPTED)"
  then have "v \<notin> audience_ids db u" using not_in_audience by blast
  moreover have "set (get_feed db u skip limit)
      \<subseteq> set (filter (\<lambda>p. p_user_id p \<in> audience_ids db u) (posts db))"
    unfolding get_feed_audience using set_offset_limit set_order_by_desc by metis
  ultimately show "\<forall>p \<in> set (get_feed db u skip limit). p_user_id p \<noteq> v" by auto
qed

theorem get_feed_audience_posts_witness:
  "length (posts feed_db) \<le> 20
   \<and> audience_ids feed_db 1 = {1, 2}
   \<and> map p_content (get_feed feed_db 1 0 20) = [''hello'', ''mine'']
   \<and> mset (get_feed feed_db 1 0 20)
       = mset (filter (\<lambda>p. p_user_id p \<in> audience_ids feed_db 1) (posts feed_db))
   \<and> map status (pair_rows feed_db 1 3) = [PENDING]
   \<and> 3 \<notin> p_user_id ` set (get_feed feed_db 1 0 20)
   \<and> map status (pair_rows feed_db 1 4) = [DECLINED]
   \<and> 4 \<notin> p_user_id ` set (get_feed feed_db 1 0 20)
   \<and> pair_rows feed_db 1 5 = []
   \<and> 5 \<notin> p_user_id ` set (get_feed feed_db 1 0 20)
   \<and> get_user_connections solo_db 1 = []
   \<and> map p_content (filter (\<lambda>p. p_user_id p = 1) (posts solo_db)) = [''mine'']
   \<and> map p_content (get_feed solo_db 1 0 20) = [''mine'']"
proof -
  let ?mine = "\<lparr>p_id = 1, p_user_id = 1, p_content = ''mine'', p_image_url = None,
                p_created_at = 20, p_updated_at = 20\<rparr>"
  have l: "length (posts feed_db) \<le> 20" by (simp add: feed_db_posts)
  have a: "audience_ids feed_db 1 = {1, 2}"
    unfolding connected_user_ids_audience[symmetric]
    by (auto simp: connected_user_ids_def get_user_connections_def feed_db_connections)
  have c: "map p_content (get_feed feed_db 1 0 20) = [''hello'', ''mine'']"
    by (simp add: get_feed_def connected_user_ids_def get_user_connections_def
          feed_db_connections feed_db_posts offset_limit_def order_by_desc_created_at_def)
  have p3: "\<forall>c \<in> set (pair_rows feed_db 1 3). status c \<noteq> ACCEPTED"
    by (simp add: pair_rows_def feed_db_connections)
  have p4: "\<forall>c \<in> set (pair_rows feed_db 1 4). status c \<noteq> ACCEPTED"
    by (simp add: pair_rows_def feed_db_connections)
  have p5: "\<forall>c \<in> set (pair_rows feed_db 1 5). status c \<noteq> ACCEPTED"
    by (simp add: pair_rows_def feed_db_connections)
  have s1: "get_user_connections solo_db 1 = []"
    by (simp add: get_user_connections_def solo_db_eq)
  have s2: "filter (\<lambda>p. p_user_id p = 1) (posts solo_db) = [?mine]"
    by (simp add: solo_db_eq)
  have "get_user_connections solo_db 1 = []
        \<and> filter (\<lambda>p. p_user_id p = 1) (posts solo_db) = [?mine] \<and> (0::nat) < 20
      \<longrightarrow> get_feed solo_db 1 0 20 = [?mine]"
    using get_feed_audience_posts[of solo_db 1 0 20 ?mine] by blast
  then have s3: "get_feed solo_db 1 0 20 = [?mine]"
    using s1 s2 by simp
  have m: "mset (get_feed feed_db 1 0 20)
       = mset (filter (\<lambda>p. p_user_id p \<in> audience_ids feed_db 1) (posts feed_db))"
    using get_feed_audience_posts[of feed_db 1 0 20 ?mine 3] l by blast
  have "(3::int) \<noteq> 1 \<and> (\<forall>c \<in> set (pair_rows feed_db 1 3). status c \<noteq> ACCEPTED)
      \<longrightarrow> (\<forall>p \<in> set (get_feed feed_db 1 0 20). p_user_id p \<noteq> 3)"
    using get_feed_audience_posts[of feed_db 1 0 20 ?mine 3] by blast
  then have n3: "\<forall>p \<in> set (get_feed feed_db 1 0 20). p_user_id p \<noteq> 3"
    using p3 by simp
  have "(4::int) \<noteq> 1 \<and> (\<forall>c \<in> set (pair_rows feed_db 1 4). status c \<noteq> ACCEPTED)
      \<longrightarrow> (\<forall>p \<in> set (get_feed feed_db 1 0 20). p_user_id p \<noteq> 4)"
    using get_feed_audience_posts[of feed_db 1 0 20 ?mine 4] by blast
  then have n4: "\<forall>p \<in> set (get_feed feed_db 1 0 20). p_user_id p \<noteq> 4"
    using p4 by simp
  have "(5::int) \<noteq> 1 \<and> (\<forall>c \<in> set (pair_rows feed_db 1 5). status c \<noteq> ACCEPTED)
      \<longrightarrow> (\<forall>p \<in> set (get_feed feed_db 1 0 20). p_user_id p \<noteq> 5)"
    using get_feed_audience_posts[of feed_db 1 0 20 ?mine 5] by blast
  then have n5: "\<forall>p \<in> set (get_feed feed_db 1 0 20). p_user_id p \<noteq> 5"
    using p5 by simp
  have r3: "map status (pair_rows feed_db 1 3) = [PENDING]"
    and r4: "map status (pair_rows feed_db 1 4) = [DECLINED]"
    and r5: "pair_rows feed_db 1 5 = []"
    by (simp_all add: pair_rows_def feed_db_connections)
  have i3: "3 \<notin> p_user_id ` set (get_feed feed_db 1 0 20)" using n3 by auto
  have i4: "4 \<notin> p_user_id ` set (get_feed feed_db 1 0 20)" using n4 by auto
  have i5: "5 \<notin> p_user_id ` set (get_feed feed_db 1 0 20)" using n5 by auto
  show ?thesis
    using l a c m r3 i3 r4 i4 r5 i5 s1 s2 s3 by simp
qed

text \<open>
  The query of \<open>get_feed\<close> sorts on \<open>created_at\<close> alone. The posts with ids 5
  and 7 of user 1 have the same timestamp, and the feed gives 5 before 7; a first page of
  one post holds the post with id 5.
\<close>

theorem get_feed_tie_counterexample:
  "map (\<lambda>p. (p_id p, p_created_at p)) (get_feed tie_db 1 0 20) = [(5, 100), (7, 100)]
   \<and> map p_id (get_feed tie_db 1 0 1) = [5]"
  by (simp add: tie_db_def run_def create_post_def say_def empty_db_def next_id_def Let_def
        get_feed_def connected_user_ids_def get_user_connections_def offset_limit_def
        order_by_desc_created_at_def)

text \<open>
  C7, as the code has it. Every window of the feed is ordered by \<open>created_at\<close>
  descending. Posts with equal \<open>created_at\<close> get no second key: they come in the
  order in which the table holds them, not by id descending.
\<close>

theorem get_feed_order:
  "sorted_wrt (\<lambda>p q. p_created_at q \<le> p_created_at p) (get_feed db u skip limit)
   \<and> (length (posts db) \<le> limit \<longrightarrow>
        filter (\<lambda>p. p_created_at p = t) (get_feed db u 0 limit)
        = filter (\<lambda>p. p_created_at p = t)
            (filter (\<lambda>p. p_user_id p \<in> set (connected_user_ids db u)) (posts db)))"
proof
  show "sorted_wrt (\<lambda>p q. p_created_at q \<le> p_created_at p) (get_feed db u skip limit)"
    unfolding get_feed_def by (intro sorted_wrt_offset_limit sorted_order_by_desc)
next
  let ?f = "filter (\<lambda>p. p_user_id p \<in> set (connected_user_ids db u)) (posts db)"
  show "length (posts db) \<le> limit \<longrightarrow>
        filter (\<lambda>p. p_created_at p = t) (get_feed db u 0 limit)
        = filter (\<lambda>p. p_created_at p = t) ?f"
  proof
    assume l: "length (posts db) \<le> limit"
    have "length (order_by_desc_created_at ?f) \<le> limit"
      using le_trans[OF length_filter_le l] by (simp add: length_order_by_desc)
    then have "get_feed db u 0 limit = order_by_desc_created_at ?f"
      by (simp add: get_feed_def offset_limit_all)
    then show "filter (\<lambda>p. p_created_at p = t) (get_feed db u 0 limit)
        = filter (\<lambda>p. p_created_at p = t) ?f"
      by (simp add: order_by_desc_ties)
  qed
qed

theorem get_feed_order_witness:
  "length (posts tie_db) \<le> 20
   \<and> sorted_wrt (\<lambda>p q. p_created_at q \<le> p_created_at p) (get_feed tie_db 9 0 20)
   \<and> map p_id (get_feed tie_db 9 0 20) = [6, 4, 3, 2, 1]
   \<and> map p_id (filter (\<lambda>p. p_created_at p = 100) (get_feed tie_db 1 0 20)) = [5, 7]
   \<and> map p_id (filter (\<lambda>p. p_created_at p = 100)
         (filter (\<lambda>p. p_user_id p \<in> set (connected_user_ids tie_db 1)) (posts tie_db)))
       = [5, 7]"
proof -
  have p: "map (\<lambda>p. (p_id p, p_user_id p, p_created_at p)) (posts tie_db)
      = [(1, 9, 1), (2, 9, 2), (3, 9, 3), (4, 9, 4), (5, 1, 100), (6, 9, 50), (7, 1, 100)]"
    and c: "connections tie_db = []"
    by (simp_all add: tie_db_def run_def create_post_def say_def empty_db_def next_id_def
          Let_def)
  have l: "length (posts tie_db) \<le> 20"
    using arg_cong[OF p, of length] by simp
  have i: "map p_id (get_feed tie_db 9 0 20) = [6, 4, 3, 2, 1]"
    by (simp add: tie_db_def run_def create_post_def say_def empty_db_def next_id_def Let_def
        get_feed_def connected_user_ids_def get_user_connections_def offset_limit_def
        order_by_desc_created_at_def)
  have f: "map p_id (filter (\<lambda>p. p_created_at p = 100)
         (filter (\<lambda>p. p_user_id p \<in> set (connected_user_ids tie_db 1)) (posts tie_db)))
       = [5, 7]"
    by (simp add: tie_db_def run_def create_post_def say_def empty_db_def next_id_def Let_def
        connected_user_ids_def get_user_connections_def)
  show ?thesis
    using get_feed_order[of tie_db 9 0 20 100] get_feed_order[of tie_db 1 0 20 100] l i f
    by simp
qed

section \<open>Likes\<close>

text \<open>
  C6. From a state with no like of \<open>U\<close> for \<open>P\<close>, the first \<open>like_post\<close>
  returns the new like (Liked), after which the likes of \<open>U\<close> for \<open>P\<close> are that
  one row and the count of a post with id \<open>P\<close> is one higher; the second returns at
  the unlike statement (Unliked) and gives back the database of before the two calls, so
  the likes of \<open>U\<close> for \<open>P\<close> and every \<open>like_count\<close> are as they were.
\<close>

theorem like_post_twice:
  assumes "like_rows db U P = []"
  shows "\<exists>like db1. like_post db now U P = (Inr like, db1)
        \<and> lk_user_id like = U \<and> lk_post_id like = P
        \<and> like_rows db1 U P = [like]
        \<and> like_count db1 post = like_count db post + (if p_id post = P then 1 else 0)
        \<and> like_post db1 now' U P = (Inl Unliked, db)
        \<and> like_rows (snd (like_post db1 now' U P)) U P = like_rows db U P
        \<and> like_count (snd (like_post db1 now' U P)) post = like_count db post"
proof -
  let ?like = "\<lparr>lk_id = next_id (map lk_id (likes db)), lk_post_id = P, lk_user_id = U,
              lk_created_at = now\<rparr>"
  let ?db1 = "db\<lparr>likes := likes db @ [?like]\<rparr>"
  have 1: "like_post db now U P = (Inr ?like, ?db1)"
    by (rule like_post_liked[OF assms])
  have 2: "like_rows ?db1 U P = [?like]"
    using assms by (simp add: like_rows_def)
  have "like_post ?db1 now' U P
      = (Inl Unliked, ?db1\<lparr>likes := filter (\<lambda>x. lk_id x \<noteq> lk_id ?like) (likes ?db1)\<rparr>)"
    by (rule like_post_unliked[OF 2])
  then have 3: "like_post ?db1 now' U P = (Inl Unliked, db)"
    by (simp add: filter_fresh_id)
  have 4: "like_count ?db1 post = like_count db post + (if p_id post = P then 1 else 0)"
    by (simp add: like_count_def post_likes_def)
  show ?thesis using 1 2 3 4 by simp
qed

theorem like_post_twice_witness:
  "like_rows empty_db 1 7 = []
   \<and> py_value (fst (like_post empty_db 30 1 7))
       = Some \<lparr>lk_id = 1, lk_post_id = 7, lk_user_id = 1, lk_created_at = 30\<rparr>
   \<and> snd (like_post empty_db 30 1 7) = liked_db
   \<and> like_count empty_db post_7 = 0
   \<and> like_count liked_db post_7 = 1
   \<and> like_post liked_db 31 1 7 = (Inl Unliked, empty_db)"
proof -
  have e: "like_rows empty_db 1 7 = []" by (simp add: like_rows_def empty_db_def)
  have l: "like_post empty_db 30 1 7
      = (Inr \<lparr>lk_id = 1, lk_post_id = 7, lk_user_id = 1, lk_created_at = 30\<rparr>, liked_db)"
    by (simp add: liked_db_def run_def like_post_def like_rows_def empty_db_def next_id_def
          Let_def)
  have c: "like_count empty_db post_7 = 0"
    by (simp add: like_count_def post_likes_def empty_db_def)
  show ?thesis
    using like_post_twice[OF e, of 30 post_7 31] e l c by (simp add: post_7_def)
qed

text \<open>
  C10. \<open>like_post\<close> returns a value other than \<open>None\<close> exactly when there was
  no like of \<open>U\<close> for \<open>P\<close>, and the value is the like it has stored. When there
  was one like, the call removes it and the caller gets \<open>None\<close>; when the lookup
  raises (more than one row for the pair), the handler rolls back and the caller gets
  \<open>None\<close> too: the returned value is the same for the unlike and for the failure.
\<close>

theorem like_post_return_values:
  "(py_value (fst (like_post db now U P)) \<noteq> None \<longleftrightarrow> like_rows db U P = [])
   \<and> (like_rows db U P = [] \<longrightarrow>
        (\<exists>like. py_value (fst (like_post db now U P)) = Some like
           \<and> like_rows (snd (like_post db now U P)) U P = [like]))
   \<and> (\<forall>l. like_rows db U P = [l] \<longrightarrow>
        like_post db now U P
          = (Inl Unliked, db\<lparr>likes := filter (\<lambda>x. lk_id x \<noteq> lk_id l) (likes db)\<rparr>)
        \<and> py_value (fst (like_post db now U P)) = None
        \<and> l \<notin> set (likes (snd (like_post db now U P))))
   \<and> (1 < length (like_rows db U P) \<longrightarrow>
        like_post db now U P = (Inl Exception_caught, db)
        \<and> py_value (fst (like_post db now U P)) = None)"
proof -
  have a: "(py_value (fst (like_post db now U P)) \<noteq> None) = (like_rows db U P = [])"
    by (auto simp: like_post_def scalar_one_or_none_cases Let_def)
  have b: "\<exists>like. py_value (fst (like_post db now U P)) = Some like
           \<and> like_rows (snd (like_post db now U P)) U P = [like]"
    if e: "like_rows db U P = []"
    using e unfolding like_post_liked[OF e] by (simp add: like_rows_def)
  have c: "like_post db now U P
          = (Inl Unliked, db\<lparr>likes := filter (\<lambda>x. lk_id x \<noteq> lk_id l) (likes db)\<rparr>)
        \<and> py_value (fst (like_post db now U P)) = None
        \<and> l \<notin> set (likes (snd (like_post db now U P)))"
    if o: "like_rows db U P = [l]" for l
    by (simp add: like_post_unliked[OF o])
  have d: "like_post db now U P = (Inl Exception_caught, db)
        \<and> py_value (fst (like_post db now U P)) = None"
    if m: "1 < length (like_rows db U P)"
    by (simp add: like_post_raised[OF m])
  show ?thesis using a b c d by blast
qed

theorem like_post_return_values_witness:
  "like_rows liked_db 1 7
       = [\<lparr>lk_id = 1, lk_post_id = 7, lk_user_id = 1, lk_created_at = 30\<rparr>]
   \<and> like_post liked_db 31 1 7 = (Inl Unliked, empty_db)
   \<and> py_value (fst (like_post liked_db 31 1 7)) = None
   \<and> 1 < length (like_rows twice_liked_db 1 7)
   \<and> like_post twice_liked_db 31 1 7 = (Inl Exception_caught, twice_liked_db)
   \<and> py_value (fst (like_post twice_liked_db 31 1 7)) = None
   \<and> like_rows empty_db 1 7 = []
   \<and> py_value (fst (like_post empty_db 30 1 7)) \<noteq> None"
proof -
  let ?l = "\<lparr>lk_id = 1, lk_post_id = 7, lk_user_id = 1, lk_created_at = 30\<rparr>"
  have d: "liked_db = empty_db\<lparr>likes := [?l]\<rparr>"
    by (simp add: liked_db_def run_def like_post_def like_rows_def empty_db_def next_id_def
          Let_def)
  have o: "like_rows liked_db 1 7 = [?l]"
    by (simp add: d like_rows_def empty_db_def)
  have m: "1 < length (like_rows twice_liked_db 1 7)"
    by (simp add: twice_liked_db_def like_rows_def empty_db_def)
  have e: "like_rows empty_db 1 7 = []" by (simp add: like_rows_def empty_db_def)
  have 1: "like_post liked_db 31 1 7
          = (Inl Unliked, liked_db\<lparr>likes := filter (\<lambda>x. lk_id x \<noteq> lk_id ?l) (likes liked_db)\<rparr>)"
    and 2: "py_value (fst (like_post liked_db 31 1 7)) = None"
    using like_post_return_values[of liked_db 31 1 7] o by blast+
  have 3: "like_post twice_liked_db 31 1 7 = (Inl Exception_caught, twice_liked_db)"
    and 4: "py_value (fst (like_post twice_liked_db 31 1 7)) = None"
    using like_post_return_values[of twice_liked_db 31 1 7] m by blast+
  have 5: "py_value (fst (like_post empty_db 30 1 7)) \<noteq> None"
    using like_post_return_values[of empty_db 30 1 7] e by blast
  have u: "like_post liked_db 31 1 7 = (Inl Unliked, empty_db)"
    unfolding 1 by (simp add: d empty_db_def)
  show ?thesis using o u 2 m 3 4 e 5 by simp
qed

section \<open>Comments\<close>

lemma comment_on_post_stored:
  assumes "sqlite_integer p" and "sqlite_integer u" and "post_reference_held engine db p"
  shows "\<exists>comment. comment_on_post engine db now u p cmc
       = (Inr comment, db\<lparr>comments := comments db @ [comment]\<rparr>)
     \<and> cm_post_id comment = p \<and> cm_user_id comment = u
     \<and> cm_content comment = cmc_content cmc
     \<and> cm_id comment \<notin> set (map cm_id (comments db))"
proof -
  have "next_id (map cm_id (comments db)) \<notin> set (map cm_id (comments db))"
    using next_id_fresh[of "next_id (map cm_id (comments db))" "map cm_id (comments db)"]
    by auto
  then show ?thesis using assms by (simp add: comment_on_post_def Let_def)
qed

lemma comment_on_post_out_of_range:
  "\<not> sqlite_integer p \<Longrightarrow>
   comment_on_post engine db now u p cmc = (Inl Exception_caught, db)"
  by (simp add: comment_on_post_def Let_def)

lemma comment_on_post_enforced:
  "foreign_keys engine \<Longrightarrow> p \<notin> set (map p_id (posts db)) \<Longrightarrow>
   comment_on_post engine db now u p cmc = (Inl Exception_caught, db)"
  by (simp add: comment_on_post_def post_reference_held_def Let_def)

lemma comment_on_post_not_enforced:
  "\<not> foreign_keys engine \<Longrightarrow> sqlite_integer p \<Longrightarrow> sqlite_integer u \<Longrightarrow>
   py_value (fst (comment_on_post engine db now u p cmc)) \<noteq> None
   \<and> length (comments (snd (comment_on_post engine db now u p cmc)))
       = Suc (length (comments db))"
  by (simp add: comment_on_post_def post_reference_held_def Let_def)

text \<open>
  C9. The claim does not hold of the service as the application runs it. On a database
  without posts, user 1 comments on post 99: with the configured engine the comment is
  stored and returned, where the claim has a failure and no comment. The failure the
  claim describes is the one the declared foreign key and the handler give as soon as the
  engine enforces the declaration: the same call then returns at the handler
  (\<open>None\<close>) and stores nothing, as does a call whose \<open>post_id\<close> the integer
  column cannot hold.
\<close>

theorem comment_on_missing_post_stored:
  "posts empty_db = []
   \<and> py_value (fst (comment_on_post shipped_engine empty_db 40 1 99 (remark ''hi'')))
       = Some \<lparr>cm_id = 1, cm_post_id = 99, cm_user_id = 1, cm_content = ''hi'',
               cm_created_at = 40, cm_updated_at = 40\<rparr>
   \<and> comments (snd (comment_on_post shipped_engine empty_db 40 1 99 (remark ''hi'')))
       = [\<lparr>cm_id = 1, cm_post_id = 99, cm_user_id = 1, cm_content = ''hi'',
           cm_created_at = 40, cm_updated_at = 40\<rparr>]
   \<and> comment_on_post \<lparr>foreign_keys = True\<rparr> empty_db 40 1 99 (remark ''hi'')
       = (Inl Exception_caught, empty_db)
   \<and> comment_on_post shipped_engine empty_db 40 1 (2 ^ 63) (remark ''hi'')
       = (Inl Exception_caught, empty_db)"
  by (simp add: comment_on_post_def shipped_engine_def sqlite_integer_def
        post_reference_held_def remark_def empty_db_def next_id_def Let_def)

end
